theory Spec2Isabelle
  imports Main "HOL-Library.List_Lexorder" "HOL-Library.Multiset"
begin

section \<open>The HTTP client extension: URL splitting, header parsing, error messages\<close>

text \<open>
  A shallow embedding of \<^verbatim>\<open>src/http_client_extension.cpp\<close>. A \<^verbatim>\<open>std::string\<close> is a
  list of bytes, that is a \<^typ>\<open>string\<close>. An exception is a value of \<open>error\<close>, and a
  function that may throw returns \<open>error + 'a\<close> with \<open>Inl\<close> for the exception.
\<close>

subsection \<open>Exceptions\<close>

datatype error =
    runtime_error string  \<comment> \<open>\<^verbatim>\<open>std::runtime_error(msg)\<close>, thrown by the extension\<close>
  | out_of_range          \<comment> \<open>\<^verbatim>\<open>std::out_of_range\<close>, thrown by \<^verbatim>\<open>substr\<close> and \<^verbatim>\<open>erase\<close>\<close>

definition bind_result :: "error + 'a \<Rightarrow> ('a \<Rightarrow> error + 'b) \<Rightarrow> error + 'b" where
  "bind_result r f = (case r of Inl e \<Rightarrow> Inl e | Inr v \<Rightarrow> f v)"

subsection \<open>The operations of \<^verbatim>\<open>std::string\<close> that the extension calls\<close>

text \<open>
  A \<^verbatim>\<open>size_t\<close> that comes out of a search is either an index into the string or
  \<^verbatim>\<open>std::string::npos\<close>, the largest \<^verbatim>\<open>size_t\<close>, which no index reaches. It is modelled
  as \<open>nat option\<close> with \<open>None\<close> for \<^verbatim>\<open>npos\<close>. Adding to it wraps around as unsigned
  arithmetic does: \<^verbatim>\<open>npos + 1\<close> is \<open>0\<close>.
\<close>

type_synonym size_t = "nat option"

definition npos :: size_t where
  "npos = None"

fun size_plus :: "size_t \<Rightarrow> nat \<Rightarrow> size_t" where
  "size_plus (Some i) k = Some (i + k)"
| "size_plus None k = (if k = 0 then None else Some (k - 1))"

text \<open>\<^verbatim>\<open>s.find(pat)\<close>: the lowest index at which \<open>pat\<close> occurs in \<open>s\<close>, or \<^verbatim>\<open>npos\<close>.\<close>

fun str_find :: "string \<Rightarrow> string \<Rightarrow> size_t" where
  "str_find [] pat = (if pat = [] then Some 0 else None)"
| "str_find (c # cs) pat =
     (if take (length pat) (c # cs) = pat then Some 0
      else map_option Suc (str_find cs pat))"

text \<open>\<^verbatim>\<open>s.find(ch)\<close>, the overload that searches for one character.\<close>

definition find_char :: "string \<Rightarrow> char \<Rightarrow> size_t" where
  "find_char s ch = str_find s [ch]"

text \<open>\<^verbatim>\<open>s.find_first_not_of(chars)\<close>: the lowest index of a character not in \<open>chars\<close>.\<close>

fun find_first_not_of :: "string \<Rightarrow> string \<Rightarrow> size_t" where
  "find_first_not_of [] chars = None"
| "find_first_not_of (c # cs) chars =
     (if c \<in> set chars then map_option Suc (find_first_not_of cs chars) else Some 0)"

text \<open>\<^verbatim>\<open>s.find_last_not_of(chars)\<close>: the highest index of a character not in \<open>chars\<close>.\<close>

definition find_last_not_of :: "string \<Rightarrow> string \<Rightarrow> size_t" where
  "find_last_not_of s chars =
     (case find_first_not_of (rev s) chars of
        None \<Rightarrow> None
      | Some j \<Rightarrow> Some (length s - 1 - j))"

text \<open>
  \<^verbatim>\<open>s.substr(pos, cnt)\<close> throws when \<open>pos > size\<close>, and otherwise copies at most
  \<open>cnt\<close> characters from \<open>pos\<close> on; a \<open>cnt\<close> of \<^verbatim>\<open>npos\<close> (the default) means "to the
  end".
\<close>

definition substr :: "string \<Rightarrow> size_t \<Rightarrow> size_t \<Rightarrow> error + string" where
  "substr s pos cnt =
     (case pos of
        None \<Rightarrow> Inl out_of_range
      | Some p \<Rightarrow>
          if p > length s then Inl out_of_range
          else Inr (case cnt of None \<Rightarrow> drop p s | Some n \<Rightarrow> take n (drop p s)))"

text \<open>
  \<^verbatim>\<open>s.erase(index, cnt)\<close> throws when \<open>index > size\<close>, and otherwise removes at most
  \<open>cnt\<close> characters from \<open>index\<close> on; a \<open>cnt\<close> of \<^verbatim>\<open>npos\<close> (the default) removes the
  whole tail.
\<close>

definition erase :: "string \<Rightarrow> size_t \<Rightarrow> size_t \<Rightarrow> error + string" where
  "erase s index cnt =
     (case index of
        None \<Rightarrow> Inl out_of_range
      | Some i \<Rightarrow>
          if i > length s then Inl out_of_range
          else Inr (case cnt of None \<Rightarrow> take i s | Some n \<Rightarrow> take i s @ drop (i + n) s))"

text \<open>
  \<^verbatim>\<open>s.c_str()\<close> handed to a parameter of type \<^verbatim>\<open>const std::string &\<close> or
  \<^verbatim>\<open>const char *\<close>: the receiver sees the bytes up to the first NUL.
\<close>

definition c_str :: "string \<Rightarrow> string" where
  "c_str s = takeWhile (\<lambda>c. c \<noteq> CHR 0x00) s"

subsection \<open>The URL decomposer (\<^verbatim>\<open>SetupHttpClient\<close>, lines 20 to 35)\<close>

text \<open>
  The first half of \<^verbatim>\<open>SetupHttpClient\<close>: it computes the locals \<^verbatim>\<open>domain\<close> and
  \<^verbatim>\<open>path\<close> from \<^verbatim>\<open>url\<close>. The local \<^verbatim>\<open>scheme\<close> is computed and never read.
\<close>

definition strip_scheme :: "string \<Rightarrow> error + string" where
  "strip_scheme url =
     (let pos = str_find url ''://''; mod_url = url in
      if pos \<noteq> npos then
        bind_result (substr mod_url (Some 0) pos) (\<lambda>scheme.
        erase mod_url (Some 0) (size_plus pos 3))
      else Inr mod_url)"

definition split_host_path :: "string \<Rightarrow> error + (string \<times> string)" where
  "split_host_path mod_url =
     (let pos = str_find mod_url ''/'' in
      if pos \<noteq> npos then
        bind_result (substr mod_url (Some 0) pos) (\<lambda>domain.
        bind_result (substr mod_url pos npos) (\<lambda>path.
        Inr (domain, path)))
      else Inr (mod_url, ''/''))"

definition url_decompose :: "string \<Rightarrow> error + (string \<times> string)" where
  "url_decompose url = bind_result (strip_scheme url) split_host_path"

subsection \<open>The decomposition as the specification words it\<close>

text \<open>
  "Locate the first occurrence of \<^verbatim>\<open>://\<close>; if found, drop everything up to and including
  it": \<open>after_scheme\<close> walks the string and returns what follows the first occurrence.
\<close>

fun after_scheme :: "string \<Rightarrow> string option" where
  "after_scheme [] = None"
| "after_scheme (c # cs) =
     (if c = CHR '':'' \<and> take 2 cs = ''//'' then Some (drop 2 cs) else after_scheme cs)"

definition spec_remainder :: "string \<Rightarrow> string" where
  "spec_remainder url = (case after_scheme url of None \<Rightarrow> url | Some rest \<Rightarrow> rest)"

text \<open>
  "Locate the first \<^verbatim>\<open>/\<close> in the remaining string: everything before it is host,
  everything from it (inclusive) is path. If no \<^verbatim>\<open>/\<close> is found, host is the entire
  remaining string and path is \<^verbatim>\<open>/\<close>."
\<close>

definition spec_host :: "string \<Rightarrow> string" where
  "spec_host r = takeWhile (\<lambda>c. c \<noteq> CHR ''/'') r"

definition spec_path :: "string \<Rightarrow> string" where
  "spec_path r = (if CHR ''/'' \<in> set r then dropWhile (\<lambda>c. c \<noteq> CHR ''/'') r else ''/'')"

subsection \<open>The header container\<close>

text \<open>
  The type \<^verbatim>\<open>duckdb_httplib_openssl::Headers\<close> belongs to the HTTP library. Its header
  \<^verbatim>\<open>httplib.hpp\<close> is not among the sources; it declares the type as
  \<^verbatim>\<open>std::multimap<std::string, std::string, detail::ci>\<close>, where \<^verbatim>\<open>detail::ci\<close> compares
  two keys with \<^verbatim>\<open>std::lexicographical_compare\<close> under
  \<^verbatim>\<open>::tolower(c1) < ::tolower(c2)\<close> on \<^verbatim>\<open>unsigned char\<close>. In the C locale \<^verbatim>\<open>tolower\<close>
  changes the letters \<^verbatim>\<open>A\<close> to \<^verbatim>\<open>Z\<close> only.
\<close>

definition tolower :: "char \<Rightarrow> nat" where
  "tolower c = (let n = of_char c in if 65 \<le> n \<and> n \<le> 90 then n + 32 else n)"

fun lexicographical_compare :: "nat list \<Rightarrow> nat list \<Rightarrow> bool" where
  "lexicographical_compare [] [] = False"
| "lexicographical_compare [] (b # bs) = True"
| "lexicographical_compare (a # as) [] = False"
| "lexicographical_compare (a # as) (b # bs) =
     (if a < b then True else if b < a then False else lexicographical_compare as bs)"

definition ci :: "string \<Rightarrow> string \<Rightarrow> bool" where
  "ci s1 s2 = lexicographical_compare (map tolower s1) (map tolower s2)"

text \<open>
  A multimap keeps its entries in ascending order of their keys, and that is the order
  in which it is iterated: the container is the list of its entries in that order.
  \<^verbatim>\<open>emplace\<close> always inserts, also when the key is there already, and puts the new entry
  behind the entries whose keys are not greater (at the upper bound of the equal keys).
\<close>

type_synonym Headers = "(string \<times> string) list"

fun emplace :: "string \<Rightarrow> string \<Rightarrow> Headers \<Rightarrow> Headers" where
  "emplace key val [] = [(key, val)]"
| "emplace key val (e # header_map) =
     (if ci key (fst e) then (key, val) # e # header_map
      else e # emplace key val header_map)"

definition iterate :: "Headers \<Rightarrow> (string \<times> string) list" where
  "iterate header_map = header_map"

subsection \<open>The header deserializer (\<^verbatim>\<open>HTTPPostRequestFunction\<close>, lines 136 to 151)\<close>

text \<open>
  \<^verbatim>\<open>std::getline(header_stream, header)\<close> on what is left of the stream. At the end of
  the input it extracts nothing and fails, which ends the loop. Otherwise it extracts the
  characters up to the next newline, and consumes that newline when there is one.
\<close>

definition getline :: "string \<Rightarrow> (string \<times> string) option" where
  "getline header_stream =
     (if header_stream = [] then None
      else let header = takeWhile (\<lambda>c. c \<noteq> CHR 0x0A) header_stream
           in Some (header, drop (Suc (length header)) header_stream))"

text \<open>The argument \<^verbatim>\<open>" \t"\<close> of the two searches: a space and a tab.\<close>

definition blanks :: string where
  "blanks = [CHR '' '', CHR 0x09]"

text \<open>The body of the loop, for one line \<^verbatim>\<open>header\<close>.\<close>

definition header_line :: "string \<Rightarrow> Headers \<Rightarrow> error + Headers" where
  "header_line header header_map =
     (let colon_pos = find_char header CHR '':'' in
      if colon_pos \<noteq> npos then
        bind_result (substr header (Some 0) colon_pos) (\<lambda>key.
        bind_result (substr header (size_plus colon_pos 1) npos) (\<lambda>val.
        bind_result (erase key (Some 0) (find_first_not_of key blanks)) (\<lambda>key.
        bind_result (erase key (size_plus (find_last_not_of key blanks) 1) npos) (\<lambda>key.
        bind_result (erase val (Some 0) (find_first_not_of val blanks)) (\<lambda>val.
        bind_result (erase val (size_plus (find_last_not_of val blanks) 1) npos) (\<lambda>val.
        Inr (emplace key val header_map)))))))
      else Inr header_map)"

text \<open>The \<^verbatim>\<open>while\<close> loop: the state is what is left of the stream and the map so far.\<close>

function header_loop :: "string \<Rightarrow> Headers \<Rightarrow> error + Headers" where
  "header_loop header_stream header_map =
     (case getline header_stream of
        None \<Rightarrow> Inr header_map
      | Some (header, rest) \<Rightarrow>
          (case header_line header header_map of
             Inl e \<Rightarrow> Inl e
           | Inr header_map' \<Rightarrow> header_loop rest header_map'))"
  by pat_completeness auto
termination
  by (relation "measure (\<lambda>(header_stream, header_map). length header_stream)")
     (auto simp: getline_def Let_def split: if_splits)

declare header_loop.simps [simp del]

definition parse_headers :: "string \<Rightarrow> error + Headers" where
  "parse_headers headers = header_loop headers []"

text \<open>The lines that the successive calls of \<^verbatim>\<open>std::getline\<close> extract from a block.\<close>

function lines_read :: "string \<Rightarrow> string list" where
  "lines_read header_stream =
     (case getline header_stream of
        None \<Rightarrow> []
      | Some (header, rest) \<Rightarrow> header # lines_read rest)"
  by pat_completeness auto
termination
  by (relation "measure length") (auto simp: getline_def Let_def split: if_splits)

declare lines_read.simps [simp del]

subsection \<open>The deserializer as the specification words it\<close>

text \<open>
  "Trim leading/trailing horizontal whitespace (spaces and tabs only)"; "split into key
  (before) and value (after)" the first colon.
\<close>

definition is_blank :: "char \<Rightarrow> bool" where
  "is_blank c = (c = CHR '' '' \<or> c = CHR 0x09)"

definition spec_trim :: "string \<Rightarrow> string" where
  "spec_trim s = rev (dropWhile is_blank (rev (dropWhile is_blank s)))"

definition spec_key :: "string \<Rightarrow> string" where
  "spec_key line = spec_trim (takeWhile (\<lambda>c. c \<noteq> CHR '':'') line)"

definition spec_value :: "string \<Rightarrow> string" where
  "spec_value line = spec_trim (tl (dropWhile (\<lambda>c. c \<noteq> CHR '':'') line))"

definition has_colon :: "string \<Rightarrow> bool" where
  "has_colon line = (CHR '':'' \<in> set line)"

definition spec_entries :: "string list \<Rightarrow> (string \<times> string) list" where
  "spec_entries ls = map (\<lambda>line. (spec_key line, spec_value line)) (filter has_colon ls)"

text \<open>"Insert into the map", for a list of entries, one after the other.\<close>

definition emplace_all :: "Headers \<Rightarrow> (string \<times> string) list \<Rightarrow> Headers" where
  "emplace_all header_map entries = foldl (\<lambda>m (key, val). emplace key val m) header_map entries"

text \<open>
  A name with its letters in lower case, as a list of character codes: what the map
  compares. Lists of numbers are ordered lexicographically.
\<close>

definition ci_key :: "string \<Rightarrow> nat list" where
  "ci_key k = map tolower k"

subsection \<open>The HTTP library\<close>

text \<open>
  The enumeration \<^verbatim>\<open>duckdb_httplib_openssl::Error\<close> is declared in the library's
  header too. The \<^verbatim>\<open>switch\<close> of \<^verbatim>\<open>HandleHttpError\<close> names eleven of its values, and they
  are the first eleven constructors here. Every other value of the enumeration (the
  library has \<^verbatim>\<open>Success\<close> and \<^verbatim>\<open>Unknown\<close> at least) is \<open>Other n\<close>, with \<open>n\<close> its number.
\<close>

datatype Error =
    Connection
  | BindIPAddress
  | Read
  | Write
  | ExceedRedirectCount
  | Canceled
  | SSLConnection
  | SSLLoadingCerts
  | SSLServerVerification
  | UnsupportedMultipartBoundaryChars
  | Compression
  | Other nat

text \<open>The fields of a response that the extension reads.\<close>

record Response =
  status :: int
  reason :: string
  body :: string

text \<open>
  What a request returns: the response, if one was received, and the error code.
  \<^verbatim>\<open>if (res)\<close> tests whether there is a response, \<^verbatim>\<open>res.error()\<close> reads the code.
\<close>

record Result =
  response :: "Response option"
  err :: Error

text \<open>The configuration of a client that the extension sets.\<close>

record Client =
  read_timeout_sec :: int
  read_timeout_usec :: int
  follow_location :: bool

text \<open>
  The two setters are members of the library's client: each stores its arguments in
  the client's configuration.
\<close>

definition set_read_timeout :: "int \<Rightarrow> int \<Rightarrow> Client \<Rightarrow> Client" where
  "set_read_timeout sec usec client = client\<lparr>read_timeout_sec := sec, read_timeout_usec := usec\<rparr>"

definition set_follow_location :: "bool \<Rightarrow> Client \<Rightarrow> Client" where
  "set_follow_location on client = client\<lparr>follow_location := on\<rparr>"

text \<open>
  The constructor of the client and its two request methods belong to the library and
  talk to the network. They are parameters of the model: the constructor gets the
  host, \<open>Get\<close> gets the client and the path, \<open>Post\<close> gets the client, the path, the
  headers, the body and the content type.
\<close>

record httplib =
  new_Client :: "string \<Rightarrow> Client"
  Get :: "Client \<Rightarrow> string \<Rightarrow> Result"
  Post :: "Client \<Rightarrow> string \<Rightarrow> Headers \<Rightarrow> string \<Rightarrow> string \<Rightarrow> Result"

subsection \<open>\<^verbatim>\<open>SetupHttpClient\<close>\<close>

definition SetupHttpClient :: "httplib \<Rightarrow> string \<Rightarrow> error + (Client \<times> string)" where
  "SetupHttpClient lib url =
     bind_result (url_decompose url) (\<lambda>(domain, path).
       let client = new_Client lib (c_str domain);
           client = set_read_timeout 10 0 client;
           client = set_follow_location True client
       in Inr (client, path))"

subsection \<open>\<^verbatim>\<open>HandleHttpError\<close>\<close>

text \<open>The \<^verbatim>\<open>switch\<close> (lines 48 to 85): the text appended to \<^verbatim>\<open>err_message\<close>.\<close>

fun error_text :: "Error \<Rightarrow> string" where
  "error_text Connection = ''Connection error.''"
| "error_text BindIPAddress = ''Failed to bind IP address.''"
| "error_text Read = ''Error reading response.''"
| "error_text Write = ''Error writing request.''"
| "error_text ExceedRedirectCount = ''Too many redirects.''"
| "error_text Canceled = ''Request was canceled.''"
| "error_text SSLConnection = ''SSL connection failed.''"
| "error_text SSLLoadingCerts = ''Failed to load SSL certificates.''"
| "error_text SSLServerVerification = ''SSL server verification failed.''"
| "error_text UnsupportedMultipartBoundaryChars = ''Unsupported characters in multipart boundary.''"
| "error_text Compression = ''Error during compression.''"
| "error_text (Other n) = ''Unknown error.''"

text \<open>The function returns \<^verbatim>\<open>void\<close>: a normal return would be \<open>Inr ()\<close>.\<close>

definition HandleHttpError :: "Result \<Rightarrow> string \<Rightarrow> error + unit" where
  "HandleHttpError res request_type =
     (let err_message = ''HTTP '' @ request_type @ '' request failed. '';
          err_message = err_message @ error_text (err res)
      in Inl (runtime_error err_message))"

subsection \<open>\<^verbatim>\<open>std::to_string\<close> of an \<^verbatim>\<open>int\<close>\<close>

definition digit_char :: "nat \<Rightarrow> char" where
  "digit_char d = ''0123456789'' ! d"

fun nat_digits :: "nat \<Rightarrow> string" where
  "nat_digits n = (if n < 10 then [digit_char n] else nat_digits (n div 10) @ [digit_char (n mod 10)])"

declare nat_digits.simps [simp del]

definition to_string :: "int \<Rightarrow> string" where
  "to_string i = (if i < 0 then CHR ''-'' # nat_digits (nat (- i)) else nat_digits (nat i))"

subsection \<open>The two scalar functions, for one row\<close>

text \<open>
  The \<^verbatim>\<open>if (res) ... else ...\<close> of the GET function (lines 103 to 112). It returns a
  string from inside (\<open>Some\<close>), throws, or is left normally (\<open>None\<close>), and then control
  reaches the \<^verbatim>\<open>return string_t()\<close> of line 114, the empty string.
\<close>

definition GET_branches :: "Result \<Rightarrow> error + string option" where
  "GET_branches res =
     (case response res of
        Some r \<Rightarrow>
          if status r = 200 then Inr (Some (body r))
          else Inl (runtime_error (''HTTP GET error: '' @ to_string (status r) @ '' - '' @ reason r))
      | None \<Rightarrow> bind_result (HandleHttpError res ''GET'') (\<lambda>_. Inr None))"

definition POST_branches :: "Result \<Rightarrow> error + string option" where
  "POST_branches res =
     (case response res of
        Some r \<Rightarrow>
          if status r = 200 then Inr (Some (body r))
          else Inl (runtime_error (''HTTP POST error: '' @ to_string (status r) @ '' - '' @ reason r))
      | None \<Rightarrow> bind_result (HandleHttpError res ''POST'') (\<lambda>_. Inr None))"

definition or_string_t :: "error + string option \<Rightarrow> error + string" where
  "or_string_t r =
     bind_result r (\<lambda>returned. case returned of Some v \<Rightarrow> Inr v | None \<Rightarrow> Inr [])"

definition HTTPGetRequestFunction :: "httplib \<Rightarrow> string \<Rightarrow> error + string" where
  "HTTPGetRequestFunction lib input =
     (let url = input in
      bind_result (SetupHttpClient lib url) (\<lambda>(client, path).
        let res = Get lib client (c_str path)
        in or_string_t (GET_branches res)))"

definition HTTPPostRequestFunction :: "httplib \<Rightarrow> string \<Rightarrow> string \<Rightarrow> string \<Rightarrow> error + string" where
  "HTTPPostRequestFunction lib url headers body_str =
     (let url_str = url in
      bind_result (SetupHttpClient lib url_str) (\<lambda>(client, path).
      bind_result (parse_headers headers) (\<lambda>header_map.
        let res = Post lib client (c_str path) header_map body_str ''application/json''
        in or_string_t (POST_branches res))))"

subsection \<open>Mock transports\<close>

text \<open>A library whose requests all give the same result, whatever they are sent.\<close>

definition mock_client :: Client where
  "mock_client = \<lparr>read_timeout_sec = 5, read_timeout_usec = 0, follow_location = False\<rparr>"

definition mock_lib :: "Result \<Rightarrow> httplib" where
  "mock_lib r = \<lparr>new_Client = (\<lambda>host. mock_client), Get = (\<lambda>client path. r),
                 Post = (\<lambda>client path headers body_str content_type. r)\<rparr>"

definition mock_response :: "int \<Rightarrow> string \<Rightarrow> string \<Rightarrow> Result" where
  "mock_response st rs bd = \<lparr>response = Some \<lparr>status = st, reason = rs, body = bd\<rparr>, err = Other 0\<rparr>"

definition mock_failure :: "Error \<Rightarrow> Result" where
  "mock_failure e = \<lparr>response = None, err = e\<rparr>"

text \<open>
  A library whose \<open>Post\<close> answers 200 with the body \<^verbatim>\<open>seen\<close> when it is sent exactly the
  expected path, headers, body and content type, and fails otherwise.
\<close>

definition spy_lib :: "string \<Rightarrow> Headers \<Rightarrow> string \<Rightarrow> string \<Rightarrow> httplib" where
  "spy_lib path headers body_str content_type =
     \<lparr>new_Client = (\<lambda>host. mock_client),
      Get = (\<lambda>client p. mock_failure Connection),
      Post = (\<lambda>client p h b ct.
        if p = path \<and> h = headers \<and> b = body_str \<and> ct = content_type
        then mock_response 200 ''OK'' ''seen'' else mock_failure Connection)\<rparr>"

section \<open>Properties\<close>

subsection \<open>Searching\<close>

lemma str_find_char_None:
  "str_find s [ch] = None \<longleftrightarrow> ch \<notin> set s"
  by (induction s) auto

lemma str_find_char_Some:
  "str_find s [ch] = Some i \<Longrightarrow>
     i \<le> length s \<and> take i s = takeWhile (\<lambda>c. c \<noteq> ch) s \<and> drop i s = dropWhile (\<lambda>c. c \<noteq> ch) s"
  by (induction s arbitrary: i) (auto split: if_splits)

lemma take_scheme:
  "take (length ''://'') (c # cs) = ''://'' \<longleftrightarrow> c = CHR '':'' \<and> take 2 cs = ''//''"
  by (simp add: numeral_2_eq_2)

lemma str_find_scheme_Cons:
  "str_find (c # cs) ''://'' =
     (if c = CHR '':'' \<and> take 2 cs = ''//'' then Some 0 else map_option Suc (str_find cs ''://''))"
  using take_scheme [of c cs] unfolding str_find.simps by presburger

lemma take2_len: "take 2 cs = ''//'' \<Longrightarrow> 2 \<le> length cs"
  by (cases cs; cases "tl cs") (auto simp: numeral_2_eq_2)

lemma str_find_scheme_None:
  "str_find s ''://'' = None \<Longrightarrow> after_scheme s = None"
  by (induction s) (auto simp del: str_find.simps(2) simp: str_find_scheme_Cons split: if_splits)

lemma str_find_scheme_Some:
  "str_find s ''://'' = Some i \<Longrightarrow> i + 3 \<le> length s \<and> after_scheme s = Some (drop (i + 3) s)"
proof (induction s arbitrary: i)
  case Nil
  then show ?case by simp
next
  case (Cons c cs)
  show ?case
  proof (cases "c = CHR '':'' \<and> take 2 cs = ''//''")
    case True
    with Cons.prems have "i = 0" by (simp del: str_find.simps(2) add: str_find_scheme_Cons)
    with True take2_len [of cs] show ?thesis by (simp add: numeral_3_eq_3 numeral_2_eq_2)
  next
    case False
    with Cons.prems have "map_option Suc (str_find cs ''://'') = Some i"
      by (simp del: str_find.simps(2) add: str_find_scheme_Cons)
    then obtain j where j: "str_find cs ''://'' = Some j" "i = Suc j" by auto
    have d: "drop (Suc j + 3) (c # cs) = drop (j + 3) cs" by (simp add: numeral_3_eq_3)
    from False have a: "after_scheme (c # cs) = after_scheme cs" by auto
    from Cons.IH [OF j(1)] show ?thesis unfolding j(2) a d by simp
  qed
qed

lemma takeWhile_absent: "x \<notin> set r \<Longrightarrow> takeWhile (\<lambda>c. c \<noteq> x) r = r"
  by (induction r) auto

lemma dropWhile_present:
  "x \<in> set r \<Longrightarrow> dropWhile (\<lambda>c. c \<noteq> x) r \<noteq> [] \<and> hd (dropWhile (\<lambda>c. c \<noteq> x) r) = x"
  by (induction r) auto

subsection \<open>The URL decomposer\<close>

lemma strip_scheme_eq: "strip_scheme url = Inr (spec_remainder url)"
proof (cases "str_find url ''://''")
  case None
  then show ?thesis
    using str_find_scheme_None [of url]
    by (simp add: strip_scheme_def spec_remainder_def npos_def)
next
  case (Some i)
  from str_find_scheme_Some [OF Some] show ?thesis
    by (simp add: strip_scheme_def spec_remainder_def npos_def Some bind_result_def
        substr_def erase_def)
qed

lemma split_host_path_eq: "split_host_path r = Inr (spec_host r, spec_path r)"
proof (cases "str_find r ''/''")
  case None
  then have "CHR ''/'' \<notin> set r"
    by (simp add: str_find_char_None)
  with None show ?thesis
    by (simp add: split_host_path_def spec_host_def spec_path_def npos_def takeWhile_absent)
next
  case (Some i)
  then have "CHR ''/'' \<in> set r"
    using str_find_char_None [of r "CHR ''/''"] by simp
  with str_find_char_Some [OF Some] show ?thesis
    by (simp add: split_host_path_def spec_host_def spec_path_def npos_def Some
        bind_result_def substr_def)
qed

lemma url_decompose_eq:
  "url_decompose url = Inr (spec_host (spec_remainder url), spec_path (spec_remainder url))"
  by (simp add: url_decompose_def strip_scheme_eq split_host_path_eq bind_result_def)

lemma str_find_first_occurrence:
  "str_find (scheme @ '':/'') ''://'' = None \<Longrightarrow> str_find (scheme @ ''://'' @ rest) ''://'' = Some (length scheme)"
proof (induction scheme)
  case Nil
  then show ?case by simp
next
  case (Cons c cs)
  from Cons.prems have "\<not> (c = CHR '':'' \<and> take 2 (cs @ '':/'') = ''//'')"
    by (auto simp del: str_find.simps(2) simp: str_find_scheme_Cons split: if_splits)
  moreover from Cons.prems have "str_find (cs @ '':/'') ''://'' = None"
    by (auto simp del: str_find.simps(2) simp: str_find_scheme_Cons split: if_splits)
  moreover have "take 2 (cs @ '':/'') = ''//'' \<longleftrightarrow> take 2 (cs @ ''://'' @ rest) = ''//''"
    by (cases cs; cases "tl cs") (auto simp: numeral_2_eq_2)
  ultimately show ?case
    using Cons.IH by (auto simp del: str_find.simps(2) simp: str_find_scheme_Cons)
qed

lemma split_at_first:
  "x \<notin> set h \<Longrightarrow>
     takeWhile (\<lambda>c. c \<noteq> x) (h @ x # r) = h \<and> dropWhile (\<lambda>c. c \<noteq> x) (h @ x # r) = x # r"
  by (induction h) auto

lemma url_decompose_general:
  assumes "str_find (scheme @ '':/'') ''://'' = None" and "CHR ''/'' \<notin> set host"
  shows "url_decompose (scheme @ ''://'' @ host @ ''/'' @ rest) = Inr (host, ''/'' @ rest)"
proof -
  from str_find_first_occurrence [OF assms(1)]
  have f: "str_find (scheme @ ''://'' @ host @ ''/'' @ rest) ''://'' = Some (length scheme)" .
  from str_find_scheme_Some [OF f]
  have "spec_remainder (scheme @ ''://'' @ host @ ''/'' @ rest) = host @ ''/'' @ rest"
    by (simp add: spec_remainder_def)
  with assms(2) show ?thesis
    by (simp add: url_decompose_eq spec_host_def spec_path_def split_at_first)
qed

text \<open>
  C2. For every URL the decomposer drops everything up to and including the first
  \<^verbatim>\<open>://\<close> (when there is one), then splits what remains at its first \<^verbatim>\<open>/\<close>: the host is
  the text before it and the path the text from it on; with no \<^verbatim>\<open>/\<close> the host is the
  whole remainder and the path is \<^verbatim>\<open>/\<close>. The URL \<^verbatim>\<open>scheme://host/a/b\<close> gives the host
  \<^verbatim>\<open>host\<close> and the path \<^verbatim>\<open>/a/b\<close>.
\<close>

theorem url_decompose_follows_spec:
  "url_decompose url = Inr (spec_host (spec_remainder url), spec_path (spec_remainder url))
   \<and> url_decompose ''scheme://host/a/b'' = Inr (''host'', ''/a/b'')"
proof
  show "url_decompose url = Inr (spec_host (spec_remainder url), spec_path (spec_remainder url))"
    by (simp add: url_decompose_def strip_scheme_eq split_host_path_eq bind_result_def)
  show "url_decompose ''scheme://host/a/b'' = Inr (''host'', ''/a/b'')"
    by (simp add: url_decompose_def strip_scheme_def split_host_path_def bind_result_def
        substr_def erase_def npos_def)
qed

text \<open>
  C7. For every URL the path that the decomposer produces is not empty and starts
  with \<^verbatim>\<open>/\<close>, and so does what the request method receives of it through \<^verbatim>\<open>c_str\<close>.
\<close>

theorem url_decompose_path_starts_with_slash:
  "case url_decompose url of
     Inl e \<Rightarrow> False
   | Inr (host, path) \<Rightarrow>
       path \<noteq> [] \<and> hd path = CHR ''/'' \<and> c_str path \<noteq> [] \<and> hd (c_str path) = CHR ''/''"
proof -
  have "spec_path r \<noteq> [] \<and> hd (spec_path r) = CHR ''/''" for r
    by (simp add: spec_path_def dropWhile_present)
  moreover have "c_str p \<noteq> [] \<and> hd (c_str p) = CHR ''/''" if "p \<noteq> [] \<and> hd p = CHR ''/''" for p
    using that by (cases p) (simp_all add: c_str_def)
  ultimately show ?thesis
    by (simp add: url_decompose_eq)
qed

text \<open>
  C8. The decomposer never throws: every string, well formed or not, gives a host and a
  path, and the empty string gives the empty host and the path \<^verbatim>\<open>/\<close>.
\<close>

theorem url_decompose_total:
  "(\<exists>host path. url_decompose url = Inr (host, path)) \<and> url_decompose [] = Inr ([], ''/'')"
  by (simp add: url_decompose_def strip_scheme_eq split_host_path_eq bind_result_def
      spec_remainder_def spec_host_def spec_path_def)

subsection \<open>The header deserializer\<close>

lemma erase_leading:
  "erase s (Some 0) (find_first_not_of s chars) = Inr (dropWhile (\<lambda>c. c \<in> set chars) s)"
proof -
  have *: "case find_first_not_of s chars of
          None \<Rightarrow> dropWhile (\<lambda>c. c \<in> set chars) s = []
        | Some i \<Rightarrow> drop i s = dropWhile (\<lambda>c. c \<in> set chars) s"
    by (induction s) (auto split: option.splits)
  show ?thesis
  proof (cases "find_first_not_of s chars")
    case None
    with * have e: "dropWhile (\<lambda>c. c \<in> set chars) s = []" by simp
    show ?thesis unfolding None by (simp add: erase_def e)
  next
    case (Some i)
    with * have e: "drop i s = dropWhile (\<lambda>c. c \<in> set chars) s" by simp
    show ?thesis unfolding Some by (simp add: erase_def e)
  qed
qed

lemma find_first_not_of_bound:
  "find_first_not_of s chars = Some i \<Longrightarrow> i < length s \<and> drop i s = dropWhile (\<lambda>c. c \<in> set chars) s"
  by (induction s arbitrary: i) (auto split: if_splits)

lemma erase_trailing:
  "erase s (size_plus (find_last_not_of s chars) 1) npos
     = Inr (rev (dropWhile (\<lambda>c. c \<in> set chars) (rev s)))"
proof (cases "find_first_not_of (rev s) chars")
  case None
  then have "dropWhile (\<lambda>c. c \<in> set chars) (rev s) = []"
    using erase_leading [of "rev s" chars] by (simp add: erase_def)
  with None show ?thesis
    by (simp add: find_last_not_of_def erase_def npos_def)
next
  case (Some j)
  from find_first_not_of_bound [OF Some]
  have j: "j < length s" and d: "drop j (rev s) = dropWhile (\<lambda>c. c \<in> set chars) (rev s)"
    by simp_all
  from j have "length s - 1 - j + 1 = length s - j" by arith
  moreover have "rev (drop j (rev s)) = take (length s - j) s"
    by (simp add: rev_drop)
  ultimately show ?thesis
    using Some d by (simp add: find_last_not_of_def erase_def npos_def)
qed

lemma set_blanks: "(c \<in> set blanks) = is_blank c"
  by (auto simp: blanks_def is_blank_def)

lemma trim_steps:
  "bind_result (erase s (Some 0) (find_first_not_of s blanks)) (\<lambda>s.
   bind_result (erase s (size_plus (find_last_not_of s blanks) 1) npos) f) = f (spec_trim s)"
  by (simp only: erase_leading erase_trailing bind_result_def sum.case spec_trim_def set_blanks)


lemma trim_steps_normal:
  "bind_result (erase s (Some 0) (find_first_not_of s blanks)) (\<lambda>s.
   bind_result (erase s (size_plus (find_last_not_of s blanks) (Suc 0)) None) f) = f (spec_trim s)"
  using trim_steps [of s f] by (simp add: npos_def)

lemma bind_result_Inr: "bind_result (Inr x) f = f x"
  by (simp add: bind_result_def)

lemma header_line_eq:
  "header_line l m = Inr (if has_colon l then emplace (spec_key l) (spec_value l) m else m)"
proof (cases "str_find l '':''")
  case None
  then have "\<not> has_colon l"
    by (simp add: has_colon_def str_find_char_None)
  then show ?thesis
    by (simp add: header_line_def find_char_def npos_def Let_def None)
next
  case (Some i)
  then have mem: "CHR '':'' \<in> set l"
    using str_find_char_None [of l "CHR '':''"] by simp
  from str_find_char_Some [OF Some]
  have i: "i \<le> length l" and t: "take i l = takeWhile (\<lambda>c. c \<noteq> CHR '':'') l"
    and d: "drop i l = dropWhile (\<lambda>c. c \<noteq> CHR '':'') l"
    by simp_all
  from mem d have "drop i l \<noteq> []"
    by (simp add: dropWhile_present)
  then have lt: "i < length l" by simp
  have k: "substr l (Some 0) (Some i) = Inr (takeWhile (\<lambda>c. c \<noteq> CHR '':'') l)"
    by (simp add: substr_def t)
  have "drop (Suc i) l = tl (drop i l)"
    by (simp add: drop_Suc tl_drop)
  with lt d have v: "substr l (Some (Suc i)) None = Inr (tl (dropWhile (\<lambda>c. c \<noteq> CHR '':'') l))"
    by (simp add: substr_def)
  have "header_line l m = Inr (emplace (spec_key l) (spec_value l) m)"
    by (simp add: header_line_def find_char_def Some npos_def k v bind_result_Inr
        trim_steps_normal spec_key_def spec_value_def)
  with mem show ?thesis
    by (simp add: has_colon_def)
qed

lemma header_loop_eq:
  "header_loop s m = Inr (emplace_all m (spec_entries (lines_read s)))"
proof (induction s arbitrary: m rule: lines_read.induct)
  case (1 s)
  show ?case
  proof (cases "getline s")
    case None
    then show ?thesis
      by (subst header_loop.simps, subst lines_read.simps)
         (simp add: spec_entries_def emplace_all_def)
  next
    case (Some p)
    obtain l rest where p: "p = (l, rest)" by (cases p)
    from "1.IH" [OF Some [unfolded p] refl]
    have ih: "header_loop rest m' = Inr (emplace_all m' (spec_entries (lines_read rest)))" for m' .
    show ?thesis
      by (subst header_loop.simps, subst lines_read.simps)
         (simp add: Some p header_line_eq ih spec_entries_def emplace_all_def)
  qed
qed


lemma getline_Some:
  "getline s = Some (l, rest) \<Longrightarrow>
     CHR 0x0A \<notin> set l \<and> (s = l \<and> rest = [] \<and> l \<noteq> [] \<or> s = l @ CHR 0x0A # rest)"
proof -
  assume g: "getline s = Some (l, rest)"
  then have ne: "s \<noteq> []" and l: "l = takeWhile (\<lambda>c. c \<noteq> CHR 0x0A) s"
    and r: "rest = drop (Suc (length l)) s"
    by (auto simp: getline_def Let_def split: if_splits)
  have s: "s = l @ dropWhile (\<lambda>c. c \<noteq> CHR 0x0A) s"
    by (simp add: l)
  have nl: "CHR 0x0A \<notin> set l"
    unfolding l by (auto dest: set_takeWhileD)
  show ?thesis
  proof (cases "dropWhile (\<lambda>c. c \<noteq> CHR 0x0A) s")
    case Nil
    with s have "s = l" by simp
    with ne r nl show ?thesis by simp
  next
    case (Cons c cs)
    then have "c = CHR 0x0A"
      using hd_dropWhile [of "\<lambda>c. c \<noteq> CHR 0x0A" s] by simp
    with s Cons have s': "s = l @ CHR 0x0A # cs" by simp
    have "drop (Suc (length l)) (l @ CHR 0x0A # cs) = cs" by simp
    with r s' have "rest = cs" by simp
    with s' nl show ?thesis by simp
  qed
qed

lemma lines_read_no_newline: "CHR 0x0A \<notin> set (concat (lines_read s))"
proof (induction s rule: lines_read.induct)
  case (1 s)
  show ?case
  proof (cases "getline s")
    case None
    then show ?thesis by (subst lines_read.simps) simp
  next
    case (Some p)
    obtain l rest where p: "p = (l, rest)" by (cases p)
    from "1.IH" [OF Some [unfolded p] refl] getline_Some [OF Some [unfolded p]]
    show ?thesis
      by (subst lines_read.simps) (simp add: Some p)
  qed
qed

lemma lines_read_Nil: "lines_read [] = []"
  by (subst lines_read.simps) (simp add: getline_def)

lemma lines_read_Some: "getline s = Some (l, rest) \<Longrightarrow> lines_read s = l # lines_read rest"
  by (subst lines_read.simps) simp

lemma lines_read_join:
  "concat (map (\<lambda>l. l @ [CHR 0x0A]) (lines_read s))
     = (if s = [] \<or> last s = CHR 0x0A then s else s @ [CHR 0x0A])"
proof (induction s rule: lines_read.induct)
  case (1 s)
  show ?case
  proof (cases "getline s")
    case None
    then have "s = []" by (simp add: getline_def Let_def split: if_splits)
    then show ?thesis by (simp add: lines_read_Nil)
  next
    case (Some p)
    obtain l rest where p: "p = (l, rest)" by (cases p)
    note g = Some [unfolded p]
    note ih = "1.IH" [OF g refl]
    note unf = lines_read_Some [OF g]
    from getline_Some [OF g]
    have nl: "CHR 0x0A \<notin> set l"
      and alt: "s = l \<and> rest = [] \<and> l \<noteq> [] \<or> s = l @ CHR 0x0A # rest"
      by simp_all
    from alt show ?thesis
    proof (elim disjE conjE)
      assume sl: "s = l" and r: "rest = []" and ne: "l \<noteq> []"
      from ne have "last l \<in> set l" by simp
      with nl have last: "last l \<noteq> CHR 0x0A" by auto
      have "lines_read l = [l]"
        using unf by (simp only: sl r lines_read_Nil)
      then show ?thesis
        by (simp only: sl) (simp add: ne last)
    next
      assume a: "s = l @ CHR 0x0A # rest"
      have c: "concat (map (\<lambda>l. l @ [CHR 0x0A]) (lines_read s))
                 = l @ CHR 0x0A # concat (map (\<lambda>l. l @ [CHR 0x0A]) (lines_read rest))"
        by (simp only: unf) simp
      show ?thesis
      proof (cases "rest = []")
        case True
        then show ?thesis
          unfolding c by (simp add: a lines_read_Nil)
      next
        case False
        then have "last (l @ CHR 0x0A # rest) = last rest" by simp
        with False show ?thesis
          unfolding c ih by (simp add: a)
      qed
    qed
  qed
qed


lemma parse_headers_eq:
  "parse_headers block = Inr (emplace_all [] (spec_entries (lines_read block)))"
  using header_loop_eq [of block "[]"] by (simp add: parse_headers_def)

subsection \<open>The header map: what it holds and in which order\<close>

lemma lexicographical_compare_less: "lexicographical_compare a b \<longleftrightarrow> a < b"
  by (induction a b rule: lexicographical_compare.induct) auto

lemma ci_less: "ci a b \<longleftrightarrow> ci_key a < ci_key b"
  by (simp add: ci_def ci_key_def lexicographical_compare_less)

lemma mset_emplace: "mset (emplace k v m) = add_mset (k, v) (mset m)"
  by (induction m) auto

lemma set_emplace: "set (emplace k v m) = insert (k, v) (set m)"
  by (induction m) auto

lemma sorted_emplace:
  "sorted (map (\<lambda>e. ci_key (fst e)) m) \<Longrightarrow> sorted (map (\<lambda>e. ci_key (fst e)) (emplace k v m))"
  by (induction m) (auto simp: ci_less set_emplace)

lemma filter_emplace:
  "sorted (map (\<lambda>e. ci_key (fst e)) m) \<Longrightarrow>
   filter (\<lambda>e. ci_key (fst e) = x) (emplace k v m)
     = filter (\<lambda>e. ci_key (fst e) = x) m @ (if ci_key k = x then [(k, v)] else [])"
proof (induction m)
  case Nil
  then show ?case by simp
next
  case (Cons e m)
  show ?case
  proof (cases "ci k (fst e)")
    case True
    then have lt: "ci_key k < ci_key (fst e)" by (simp add: ci_less)
    show ?thesis
    proof (cases "ci_key k = x")
      case kx: True
      from Cons.prems lt kx have "\<forall>e' \<in> set (e # m). ci_key (fst e') \<noteq> x"
        by auto
      then have "filter (\<lambda>e. ci_key (fst e) = x) (e # m) = []"
        by (auto simp: filter_empty_conv)
      with True kx show ?thesis by simp
    next
      case False
      with True show ?thesis by simp
    qed
  next
    case False
    with Cons show ?thesis by simp
  qed
qed

lemma emplace_all_props:
  "sorted (map (\<lambda>e. ci_key (fst e)) m) \<Longrightarrow>
     mset (emplace_all m es) = mset m + mset es
     \<and> sorted (map (\<lambda>e. ci_key (fst e)) (emplace_all m es))
     \<and> filter (\<lambda>e. ci_key (fst e) = x) (emplace_all m es)
         = filter (\<lambda>e. ci_key (fst e) = x) m @ filter (\<lambda>e. ci_key (fst e) = x) es"
proof (induction es arbitrary: m)
  case Nil
  then show ?case by (simp add: emplace_all_def)
next
  case (Cons e es)
  obtain k v where e: "e = (k, v)" by (cases e)
  have step: "emplace_all m (e # es) = emplace_all (emplace k v m) es"
    by (simp add: emplace_all_def e)
  from Cons.prems have s: "sorted (map (\<lambda>e. ci_key (fst e)) (emplace k v m))"
    by (rule sorted_emplace)
  from Cons.IH [OF s] show ?case
    unfolding step by (simp add: mset_emplace filter_emplace [OF Cons.prems] e)
qed


lemma parse_headers_ex:
  "parse_headers (''B: 1'' @ [CHR 0x0A] @ ''A: 2'') = Inr [(''A'', ''2''), (''B'', ''1'')]"
  by code_simp

lemma spec_entries_ex:
  "spec_entries (lines_read (''B: 1'' @ [CHR 0x0A] @ ''A: 2'')) = [(''B'', ''1''), (''A'', ''2'')]"
  by code_simp

lemma parse_headers_ex_mixed_case: "parse_headers (''b: 1'' @ [CHR 0x0A] @ ''A: 2'' @ [CHR 0x0A] @ ''a: 3'' @ [CHR 0x0A] @ ''A: 4'')
  = Inr [(''A'', ''2''), (''a'', ''3''), (''A'', ''4''), (''b'', ''1'')]"
  by code_simp

lemma parse_headers_ex_three:
  "parse_headers (''A: 1'' @ [CHR 0x0A] @ ''none'' @ [CHR 0x0A] @ '' B '' @ [CHR 0x09] @ '':2 ''
       @ [CHR 0x0A] @ ''C:3'')
     = Inr [(''A'', ''1''), (''B'', ''2''), (''C'', ''3'')]"
  by code_simp

text \<open>
  C3. The header deserializer splits the block into lines; a line with no colon is
  skipped; every other line is split at its first colon into the key before it and the
  value after it, both are trimmed of leading and trailing spaces and tabs only, and the
  pair is inserted into the map. So the map that comes out holds exactly these pairs,
  each as often as it occurs, and has one entry for every line with a colon. The lines
  are those of the block cut at its newlines: none contains a newline, and joined by
  newlines they give the block back. The block \<^verbatim>\<open>garbage\<close>, newline, \<^verbatim>\<open>A: 1\<close> parses to
  the single entry \<^verbatim>\<open>A\<close>, \<^verbatim>\<open>1\<close>; a block of four lines, one of them with no colon,
  parses to three entries.
\<close>

theorem parse_headers_follows_spec:
  "parse_headers block = Inr (emplace_all [] (spec_entries (lines_read block)))
   \<and> (\<exists>header_map.
        parse_headers block = Inr header_map
        \<and> mset header_map = mset (spec_entries (lines_read block))
        \<and> set header_map = set (spec_entries (lines_read block))
        \<and> length header_map = length (filter (\<lambda>line. CHR '':'' \<in> set line) (lines_read block)))
   \<and> spec_entries (lines_read block)
       = map (\<lambda>line. (spec_trim (takeWhile (\<lambda>c. c \<noteq> CHR '':'') line),
                        spec_trim (tl (dropWhile (\<lambda>c. c \<noteq> CHR '':'') line))))
           (filter (\<lambda>line. CHR '':'' \<in> set line) (lines_read block))
   \<and> CHR 0x0A \<notin> set (concat (lines_read block))
   \<and> concat (map (\<lambda>line. line @ [CHR 0x0A]) (lines_read block))
       = (if block = [] \<or> last block = CHR 0x0A then block else block @ [CHR 0x0A])
   \<and> parse_headers (''garbage'' @ [CHR 0x0A] @ ''A: 1'') = Inr [(''A'', ''1'')]
   \<and> parse_headers (''A: 1'' @ [CHR 0x0A] @ ''none'' @ [CHR 0x0A] @ '' B '' @ [CHR 0x09] @ '':2 ''
         @ [CHR 0x0A] @ ''C:3'')
       = Inr [(''A'', ''1''), (''B'', ''2''), (''C'', ''3'')]"
proof (intro conjI)
  show "parse_headers block = Inr (emplace_all [] (spec_entries (lines_read block)))"
    by (rule parse_headers_eq)
  have m: "mset (emplace_all [] (spec_entries (lines_read block)))
             = mset (spec_entries (lines_read block))"
    using emplace_all_props [of "[]" "spec_entries (lines_read block)" "[]"] by simp
  from m have s: "set (emplace_all [] (spec_entries (lines_read block)))
             = set (spec_entries (lines_read block))"
    by (rule mset_eq_setD)
  from m have "length (emplace_all [] (spec_entries (lines_read block)))
             = length (spec_entries (lines_read block))"
    by (rule mset_eq_length)
  then have l: "length (emplace_all [] (spec_entries (lines_read block)))
             = length (filter (\<lambda>line. CHR '':'' \<in> set line) (lines_read block))"
    by (simp add: spec_entries_def has_colon_def [abs_def])
  show "\<exists>header_map.
        parse_headers block = Inr header_map
        \<and> mset header_map = mset (spec_entries (lines_read block))
        \<and> set header_map = set (spec_entries (lines_read block))
        \<and> length header_map = length (filter (\<lambda>line. CHR '':'' \<in> set line) (lines_read block))"
    using m s l by (simp add: parse_headers_eq)
  show "spec_entries (lines_read block)
       = map (\<lambda>line. (spec_trim (takeWhile (\<lambda>c. c \<noteq> CHR '':'') line),
                        spec_trim (tl (dropWhile (\<lambda>c. c \<noteq> CHR '':'') line))))
           (filter (\<lambda>line. CHR '':'' \<in> set line) (lines_read block))"
    by (simp add: spec_entries_def spec_key_def spec_value_def has_colon_def [abs_def])
  show "CHR 0x0A \<notin> set (concat (lines_read block))"
    by (rule lines_read_no_newline)
  show "concat (map (\<lambda>line. line @ [CHR 0x0A]) (lines_read block))
       = (if block = [] \<or> last block = CHR 0x0A then block else block @ [CHR 0x0A])"
    by (rule lines_read_join)
  show "parse_headers (''garbage'' @ [CHR 0x0A] @ ''A: 1'') = Inr [(''A'', ''1'')]"
    by code_simp
  show "parse_headers (''A: 1'' @ [CHR 0x0A] @ ''none'' @ [CHR 0x0A] @ '' B '' @ [CHR 0x09] @ '':2 ''
         @ [CHR 0x0A] @ ''C:3'')
       = Inr [(''A'', ''1''), (''B'', ''2''), (''C'', ''3'')]"
    by (rule parse_headers_ex_three)
qed

text \<open>
  C6, as the specification states it: iterating the header map gives the entries in the
  order of their lines. The block \<^verbatim>\<open>B: 1\<close>, newline, \<^verbatim>\<open>A: 2\<close> refutes it: the map is
  iterated \<^verbatim>\<open>A\<close> first, the lines have \<^verbatim>\<open>B\<close> first.
\<close>

theorem header_order_counterexample:
  "parse_headers (''B: 1'' @ [CHR 0x0A] @ ''A: 2'') = Inr [(''A'', ''2''), (''B'', ''1'')]
   \<and> iterate [(''A'', ''2''), (''B'', ''1'')]
       \<noteq> spec_entries (lines_read (''B: 1'' @ [CHR 0x0A] @ ''A: 2''))"
  unfolding parse_headers_ex spec_entries_ex iterate_def by simp

text \<open>
  C6, amended. For every header block the map holds exactly the entries of the lines
  that have a colon, each name as it is written and every duplicate kept. Iterating the
  map gives them in ascending order of their names compared with the letters in lower
  case; the entries whose names are equal in that comparison come in the order of their
  lines. The block with the lines \<^verbatim>\<open>b: 1\<close>, \<^verbatim>\<open>A: 2\<close>, \<^verbatim>\<open>a: 3\<close>, \<^verbatim>\<open>A: 4\<close> is iterated as
  \<^verbatim>\<open>A: 2\<close>, \<^verbatim>\<open>a: 3\<close>, \<^verbatim>\<open>A: 4\<close>, \<^verbatim>\<open>b: 1\<close>.
\<close>

theorem header_map_key_order:
  "(\<exists>header_map.
      parse_headers block = Inr header_map
      \<and> mset (iterate header_map) = mset (spec_entries (lines_read block))
      \<and> sorted (map (\<lambda>e. ci_key (fst e)) (iterate header_map))
      \<and> filter (\<lambda>e. ci_key (fst e) = x) (iterate header_map)
          = filter (\<lambda>e. ci_key (fst e) = x) (spec_entries (lines_read block)))
   \<and> (ci_key a < ci_key b \<longleftrightarrow> ci a b)
   \<and> parse_headers (''b: 1'' @ [CHR 0x0A] @ ''A: 2'' @ [CHR 0x0A] @ ''a: 3'' @ [CHR 0x0A] @ ''A: 4'')
       = Inr [(''A'', ''2''), (''a'', ''3''), (''A'', ''4''), (''b'', ''1'')]"
proof (intro conjI)
  show "\<exists>header_map.
      parse_headers block = Inr header_map
      \<and> mset (iterate header_map) = mset (spec_entries (lines_read block))
      \<and> sorted (map (\<lambda>e. ci_key (fst e)) (iterate header_map))
      \<and> filter (\<lambda>e. ci_key (fst e) = x) (iterate header_map)
          = filter (\<lambda>e. ci_key (fst e) = x) (spec_entries (lines_read block))"
    using emplace_all_props [of "[]" "spec_entries (lines_read block)" x]
    by (simp add: parse_headers_eq iterate_def)
  show "ci_key a < ci_key b \<longleftrightarrow> ci a b"
    by (simp add: ci_less)
  show "parse_headers (''b: 1'' @ [CHR 0x0A] @ ''A: 2'' @ [CHR 0x0A] @ ''a: 3'' @ [CHR 0x0A] @ ''A: 4'')
       = Inr [(''A'', ''2''), (''a'', ''3''), (''A'', ''4''), (''b'', ''1'')]"
    by (rule parse_headers_ex_mixed_case)
qed

subsection \<open>The two scalar functions\<close>

lemma SetupHttpClient_eq:
  "SetupHttpClient lib url =
     Inr ((new_Client lib (c_str (spec_host (spec_remainder url))))
            \<lparr>read_timeout_sec := 10, read_timeout_usec := 0, follow_location := True\<rparr>,
          spec_path (spec_remainder url))"
  by (simp add: SetupHttpClient_def url_decompose_eq bind_result_def
      set_read_timeout_def set_follow_location_def)

lemma HandleHttpError_eq:
  "HandleHttpError res request_type =
     Inl (runtime_error (''HTTP '' @ request_type @ '' request failed. '' @ error_text (err res)))"
  by (simp add: HandleHttpError_def)

lemma GET_branches_eq:
  "GET_branches res =
     (case response res of
        Some r \<Rightarrow>
          if status r = 200 then Inr (Some (body r))
          else Inl (runtime_error (''HTTP GET error: '' @ to_string (status r) @ '' - '' @ reason r))
      | None \<Rightarrow> Inl (runtime_error (''HTTP GET request failed. '' @ error_text (err res))))"
  by (simp add: GET_branches_def HandleHttpError_eq bind_result_def split: option.splits)

lemma POST_branches_eq:
  "POST_branches res =
     (case response res of
        Some r \<Rightarrow>
          if status r = 200 then Inr (Some (body r))
          else Inl (runtime_error (''HTTP POST error: '' @ to_string (status r) @ '' - '' @ reason r))
      | None \<Rightarrow> Inl (runtime_error (''HTTP POST request failed. '' @ error_text (err res))))"
  by (simp add: POST_branches_def HandleHttpError_eq bind_result_def split: option.splits)

lemma HTTPGetRequestFunction_eq:
  "HTTPGetRequestFunction lib url =
     or_string_t (GET_branches (Get lib
       ((new_Client lib (c_str (spec_host (spec_remainder url))))
            \<lparr>read_timeout_sec := 10, read_timeout_usec := 0, follow_location := True\<rparr>)
       (c_str (spec_path (spec_remainder url)))))"
  by (simp add: HTTPGetRequestFunction_def SetupHttpClient_eq bind_result_def)

lemma HTTPPostRequestFunction_eq:
  "HTTPPostRequestFunction lib url headers body_str =
     or_string_t (POST_branches (Post lib
       ((new_Client lib (c_str (spec_host (spec_remainder url))))
            \<lparr>read_timeout_sec := 10, read_timeout_usec := 0, follow_location := True\<rparr>)
       (c_str (spec_path (spec_remainder url)))
       (emplace_all [] (spec_entries (lines_read headers))) body_str ''application/json''))"
  by (simp add: HTTPPostRequestFunction_def SetupHttpClient_eq parse_headers_eq bind_result_def)

text \<open>
  C1. For every row \<^verbatim>\<open>http_get\<close> sets up the client (which never fails) and sends the
  request. It returns the body of the response exactly when there is a response with
  status 200; for a response with another status it throws an error whose message holds
  the status code in decimal and the reason phrase; with no response it throws an error
  whose message holds the text for the transport error code.
\<close>

theorem http_get_outcome:
  "\<exists>client path.
     SetupHttpClient lib url = Inr (client, path) \<and>
     HTTPGetRequestFunction lib url =
       (case response (Get lib client (c_str path)) of
          Some r \<Rightarrow>
            if status r = 200 then Inr (body r)
            else Inl (runtime_error
                   (''HTTP GET error: '' @ to_string (status r) @ '' - '' @ reason r))
        | None \<Rightarrow>
            Inl (runtime_error (''HTTP GET request failed. ''
                   @ error_text (err (Get lib client (c_str path))))))"
  by (simp add: SetupHttpClient_eq HTTPGetRequestFunction_eq GET_branches_eq or_string_t_def
      bind_result_def split: option.splits)

lemma to_string_404: "to_string 404 = ''404''"
  by code_simp

theorem http_get_outcome_witness:
  "HTTPGetRequestFunction (mock_lib (mock_response 200 ''OK'' ''hello'')) ''http://host/a'' = Inr ''hello''
   \<and> HTTPGetRequestFunction (mock_lib (mock_response 404 ''Not Found'' ''gone'')) ''http://host/a''
       = Inl (runtime_error ''HTTP GET error: 404 - Not Found'')
   \<and> HTTPGetRequestFunction (mock_lib (mock_failure Connection)) ''http://host/a''
       = Inl (runtime_error ''HTTP GET request failed. Connection error.'')"
  using http_get_outcome [of "mock_lib (mock_response 200 ''OK'' ''hello'')" "''http://host/a''"]
    http_get_outcome [of "mock_lib (mock_response 404 ''Not Found'' ''gone'')" "''http://host/a''"]
    http_get_outcome [of "mock_lib (mock_failure Connection)" "''http://host/a''"]
  by (simp add: mock_lib_def mock_response_def mock_failure_def to_string_404)

subsection \<open>Errors, requests and the client\<close>

text \<open>
  C4. The message that \<^verbatim>\<open>HandleHttpError\<close> throws depends only on the error code and
  the request type. The eleven codes named in the \<^verbatim>\<open>switch\<close> give eleven different
  messages; every other code gives the \<^verbatim>\<open>Unknown error.\<close> message, which is none of the
  eleven. A connection error on a GET gives \<^verbatim>\<open>HTTP GET request failed. Connection error.\<close>
\<close>

theorem HandleHttpError_classifies:
  "distinct (map (\<lambda>e. HandleHttpError \<lparr>response = None, err = e\<rparr> request_type)
      [Connection, BindIPAddress, Read, Write, ExceedRedirectCount, Canceled, SSLConnection,
       SSLLoadingCerts, SSLServerVerification, UnsupportedMultipartBoundaryChars, Compression])
   \<and> HandleHttpError \<lparr>response = None, err = Other n\<rparr> request_type
       = Inl (runtime_error (''HTTP '' @ request_type @ '' request failed. Unknown error.''))
   \<and> HandleHttpError \<lparr>response = None, err = Other n\<rparr> request_type
       \<notin> set (map (\<lambda>e. HandleHttpError \<lparr>response = None, err = e\<rparr> request_type)
      [Connection, BindIPAddress, Read, Write, ExceedRedirectCount, Canceled, SSLConnection,
       SSLLoadingCerts, SSLServerVerification, UnsupportedMultipartBoundaryChars, Compression])
   \<and> HandleHttpError res request_type
       = HandleHttpError \<lparr>response = None, err = err res\<rparr> request_type
   \<and> HandleHttpError \<lparr>response = None, err = Connection\<rparr> ''GET''
       = Inl (runtime_error ''HTTP GET request failed. Connection error.'')"
  by (simp add: HandleHttpError_eq)

text \<open>
  C5. For every row \<^verbatim>\<open>http_post\<close> sends one request, with the header map that parsing
  its header block gives, the body as it is, and the content type
  \<^verbatim>\<open>application/json\<close>, whatever the arguments are. With the headers \<^verbatim>\<open>X-Test: 1\<close> and
  the body \<^verbatim>\<open>{}\<close> the header map has the single entry \<^verbatim>\<open>X-Test\<close>, \<^verbatim>\<open>1\<close>, and a
  transport that answers only to exactly that request is answered.
\<close>

theorem http_post_forwards:
  "(\<exists>client path header_map.
      SetupHttpClient lib url = Inr (client, path) \<and>
      parse_headers headers = Inr header_map \<and>
      HTTPPostRequestFunction lib url headers body_str =
        or_string_t (POST_branches
          (Post lib client (c_str path) header_map body_str ''application/json'')))
   \<and> parse_headers ''X-Test: 1'' = Inr [(''X-Test'', ''1'')]
   \<and> HTTPPostRequestFunction (spy_lib ''/'' [(''X-Test'', ''1'')] ''{}'' ''application/json'')
         ''http://host'' ''X-Test: 1'' ''{}'' = Inr ''seen''"
proof (intro conjI)
  show "\<exists>client path header_map.
      SetupHttpClient lib url = Inr (client, path) \<and>
      parse_headers headers = Inr header_map \<and>
      HTTPPostRequestFunction lib url headers body_str =
        or_string_t (POST_branches
          (Post lib client (c_str path) header_map body_str ''application/json''))"
    by (simp add: SetupHttpClient_eq parse_headers_eq HTTPPostRequestFunction_eq)
  show "parse_headers ''X-Test: 1'' = Inr [(''X-Test'', ''1'')]"
    by code_simp
  show "HTTPPostRequestFunction (spy_lib ''/'' [(''X-Test'', ''1'')] ''{}'' ''application/json'')
         ''http://host'' ''X-Test: 1'' ''{}'' = Inr ''seen''"
    by code_simp
qed

text \<open>
  C9. For every call of \<^verbatim>\<open>http_get\<close> and of \<^verbatim>\<open>http_post\<close> the client that the request
  is sent with is the freshly constructed one, with its read timeout set to 10 seconds
  and 0 microseconds and with redirect following switched on.
\<close>

theorem client_configured_before_request:
  "\<exists>client path.
     SetupHttpClient lib url = Inr (client, path)
     \<and> client = (new_Client lib (c_str (spec_host (spec_remainder url))))
                  \<lparr>read_timeout_sec := 10, read_timeout_usec := 0, follow_location := True\<rparr>
     \<and> read_timeout_sec client = 10 \<and> read_timeout_usec client = 0 \<and> follow_location client
     \<and> HTTPGetRequestFunction lib url = or_string_t (GET_branches (Get lib client (c_str path)))
     \<and> HTTPPostRequestFunction lib url headers body_str =
         or_string_t (POST_branches
           (Post lib client (c_str path) (emplace_all [] (spec_entries (lines_read headers)))
              body_str
              ''application/json''))"
  by (simp add: SetupHttpClient_eq HTTPGetRequestFunction_eq HTTPPostRequestFunction_eq)

text \<open>
  C10. \<^verbatim>\<open>HandleHttpError\<close> throws for every result and never returns. So neither
  \<^verbatim>\<open>if\<close> block is ever left normally, the \<^verbatim>\<open>return string_t()\<close> behind it is never
  reached, and when the transport gives no response \<^verbatim>\<open>http_get\<close> and \<^verbatim>\<open>http_post\<close>
  throw.
\<close>

theorem transport_failure_always_raises:
  "(\<exists>msg. HandleHttpError res request_type = Inl (runtime_error msg))
   \<and> GET_branches res \<noteq> Inr None
   \<and> POST_branches res \<noteq> Inr None
   \<and> (\<exists>client path header_map.
        SetupHttpClient lib url = Inr (client, path)
        \<and> parse_headers headers = Inr header_map
        \<and> (response (Get lib client (c_str path)) = None \<longrightarrow>
             (\<exists>msg. HTTPGetRequestFunction lib url = Inl (runtime_error msg)))
        \<and> (response (Post lib client (c_str path) header_map body_str ''application/json'')
               = None \<longrightarrow>
             (\<exists>msg. HTTPPostRequestFunction lib url headers body_str
                = Inl (runtime_error msg))))"
  by (simp add: HandleHttpError_eq GET_branches_eq POST_branches_eq SetupHttpClient_eq
      parse_headers_eq HTTPGetRequestFunction_eq HTTPPostRequestFunction_eq or_string_t_def
      bind_result_def split: option.splits)

theorem transport_failure_always_raises_witness:
  "(\<exists>msg. HTTPGetRequestFunction (mock_lib (mock_failure Connection)) ''host''
        = Inl (runtime_error msg))
   \<and> (\<exists>msg. HTTPPostRequestFunction (mock_lib (mock_failure Connection)) ''host''
        ''X-Test: 1'' ''{}'' = Inl (runtime_error msg))"
  using transport_failure_always_raises
    [where lib = "mock_lib (mock_failure Connection)" and url = "''host''"
       and headers = "''X-Test: 1''" and body_str = "''{}''"]
  by (simp add: mock_lib_def mock_failure_def)

end
